theory Spec2Isabelle
  imports Complex_Main
begin

section \<open>Icon atlas packing of the icon layer (icon-manager.js)\<close>

text \<open>
  A shallow embedding of \<^verbatim>\<open>src/modules/layers/src/icon-layer/icon-manager.js\<close>.
  JavaScript numbers that hold pixel sizes and offsets are modelled as \<^typ>\<open>int\<close>
  (exact integer arithmetic). A JavaScript object used as a dictionary is modelled with
  its own properties, an association list in insertion order, and its prototype.
\<close>

subsection \<open>Values\<close>

text \<open>The primitive values that occur as property keys and in the comparisons of the code.\<close>

datatype jsval = JUndefined | JNull | JBool bool | JStr string

text \<open>Truthiness of a primitive value: \<^verbatim>\<open>undefined\<close>, \<^verbatim>\<open>null\<close>, \<^verbatim>\<open>false\<close> and the
  empty string are falsy.\<close>

fun truthy :: "jsval \<Rightarrow> bool" where
  "truthy JUndefined = False"
| "truthy JNull = False"
| "truthy (JBool b) = b"
| "truthy (JStr s) = (s \<noteq> [])"

text \<open>Strict equality \<^verbatim>\<open>===\<close> on primitive values: equal type and equal value.\<close>

definition strict_eq :: "jsval \<Rightarrow> jsval \<Rightarrow> bool" where
  "strict_eq a b = (a = b)"

text \<open>The string a value is coerced to when it is used as a property key.\<close>

fun prop_key :: "jsval \<Rightarrow> string" where
  "prop_key JUndefined = ''undefined''"
| "prop_key JNull = ''null''"
| "prop_key (JBool b) = (if b then ''true'' else ''false'')"
| "prop_key (JStr s) = s"

text \<open>An optional string field of an object: \<open>None\<close> is an absent field.\<close>

fun field_val :: "string option \<Rightarrow> jsval" where
  "field_val None = JUndefined"
| "field_val (Some s) = JStr s"

text \<open>A number that may be \<^verbatim>\<open>NaN\<close> (the result of \<^verbatim>\<open>Math.log2\<close> of a negative number).\<close>

datatype jsnum = Num int | NaN

text \<open>\<^verbatim>\<open>a !== b\<close> on numbers: \<^verbatim>\<open>NaN\<close> differs from everything, itself included.\<close>

fun num_strict_neq :: "jsnum \<Rightarrow> jsnum \<Rightarrow> bool" where
  "num_strict_neq (Num a) (Num b) = (a \<noteq> b)"
| "num_strict_neq _ _ = True"

subsection \<open>Icons\<close>

text \<open>An icon object \<^verbatim>\<open>{id, url, width, height}\<close>; \<^verbatim>\<open>id\<close> and \<^verbatim>\<open>url\<close> may be absent.\<close>

record icon =
  id_icon :: "string option"
  url :: "string option"
  width :: int
  height :: int

text \<open>An icon extended with its left-top position \<^verbatim>\<open>{x, y}\<close> in the atlas.\<close>

record positioned = icon +
  x_icon :: int
  y_icon :: int

text \<open>What an icon accessor \<^verbatim>\<open>getIcon(point)\<close> returns: nothing, the name of an icon in a
  pre-packed atlas, or an icon object for auto packing.\<close>

datatype icon_ref = INull | IUndefined | IName string | IObj icon

text \<open>\<^verbatim>\<open>!icon\<close> is false for an object and for a non-empty string.\<close>

fun icon_truthy :: "icon_ref \<Rightarrow> bool" where
  "icon_truthy INull = False"
| "icon_truthy IUndefined = False"
| "icon_truthy (IName s) = (s \<noteq> [])"
| "icon_truthy (IObj i) = True"

text \<open>\<^verbatim>\<open>icon.url\<close> for a truthy icon: a string has no such property.\<close>

fun icon_url :: "icon_ref \<Rightarrow> jsval" where
  "icon_url (IObj i) = field_val (url i)"
| "icon_url _ = JUndefined"

text \<open>\<^verbatim>\<open>getIconId(icon) = icon && (icon.id || icon.url)\<close>.\<close>

fun getIconId :: "icon_ref \<Rightarrow> jsval" where
  "getIconId INull = JNull"
| "getIconId IUndefined = JUndefined"
| "getIconId (IName s) = (if s = [] then JStr [] else JUndefined)"
| "getIconId (IObj i) =
     (if truthy (field_val (id_icon i)) then field_val (id_icon i) else field_val (url i))"

subsection \<open>Objects as dictionaries\<close>

text \<open>The objects \<^verbatim>\<open>icons\<close> and \<^verbatim>\<open>mapping\<close> start as \<^verbatim>\<open>{}\<close> and are read and written
  with keys computed from the data. Such an object has its own properties, in insertion
  order, and a prototype: \<^verbatim>\<open>Object.prototype\<close> (\<open>None\<close>), or the value that an assignment
  to the key \<^verbatim>\<open>__proto__\<close> has put in its place.\<close>

record 'v obj =
  own :: "(string \<times> 'v) list"
  proto :: "'v option"

definition empty_obj :: "'v obj" where
  "empty_obj = \<lparr>own = [], proto = None\<rparr>"

text \<open>The names of the properties of \<^verbatim>\<open>Object.prototype\<close>; all but \<^verbatim>\<open>__proto__\<close> are
  functions.\<close>

definition Object_prototype_names :: "string list" where
  "Object_prototype_names =
     [''constructor'', ''__defineGetter__'', ''__defineSetter__'', ''hasOwnProperty'',
      ''__lookupGetter__'', ''__lookupSetter__'', ''isPrototypeOf'',
      ''propertyIsEnumerable'', ''toString'', ''valueOf'', ''__proto__'',
      ''toLocaleString'']"

text \<open>The value of a field of an icon: a string or a number.\<close>

datatype field = StrField string | NumField int

text \<open>The fields of an icon and of a positioned icon, by name.\<close>

definition icon_fields :: "'a icon_scheme \<Rightarrow> string \<Rightarrow> field option" where
  "icon_fields i k =
     (if k = ''id'' then map_option StrField (id_icon i)
      else if k = ''url'' then map_option StrField (url i)
      else if k = ''width'' then Some (NumField (width i))
      else if k = ''height'' then Some (NumField (height i))
      else None)"

definition positioned_fields :: "positioned \<Rightarrow> string \<Rightarrow> field option" where
  "positioned_fields p k =
     (if k = ''x'' then Some (NumField (x_icon p))
      else if k = ''y'' then Some (NumField (y_icon p))
      else icon_fields p k)"

text \<open>What \<^verbatim>\<open>o[k]\<close> finds: an own property; the prototype itself, for the key
  \<^verbatim>\<open>__proto__\<close>; a field of the value that replaced the prototype; a function of
  \<^verbatim>\<open>Object.prototype\<close>; or nothing (\<^verbatim>\<open>undefined\<close>).\<close>

datatype 'v found = Entry 'v | Proto "'v option" | Field field | Builtin | NotFound

definition obj_get :: "('v \<Rightarrow> string \<Rightarrow> field option) \<Rightarrow> 'v obj \<Rightarrow> string \<Rightarrow> 'v found" where
  "obj_get flds ob k =
     (case map_of (own ob) k of
        Some v \<Rightarrow> Entry v
      | None \<Rightarrow>
          if k = ''__proto__'' then Proto (proto ob)
          else (case Option.bind (proto ob) (\<lambda>v. flds v k) of
                  Some x \<Rightarrow> Field x
                | None \<Rightarrow> if k \<in> set Object_prototype_names then Builtin else NotFound))"

text \<open>Truthiness of what a lookup finds: objects and functions are truthy, a string
  unless empty, a number unless zero.\<close>

fun found_truthy :: "'v found \<Rightarrow> bool" where
  "found_truthy (Entry v) = True"
| "found_truthy (Proto v) = True"
| "found_truthy (Field (StrField s)) = (s \<noteq> [])"
| "found_truthy (Field (NumField n)) = (n \<noteq> 0)"
| "found_truthy Builtin = True"
| "found_truthy NotFound = False"

text \<open>\<^verbatim>\<open>o[k].url\<close> for a truthy \<^verbatim>\<open>o[k]\<close>: the url of an icon; strings, numbers, functions
  and \<^verbatim>\<open>Object.prototype\<close> have no such property.\<close>

fun found_url :: "('a icon_scheme) found \<Rightarrow> jsval" where
  "found_url (Entry e) = field_val (url e)"
| "found_url (Proto (Some e)) = field_val (url e)"
| "found_url _ = JUndefined"

text \<open>Writing an own property: an existing key keeps its place, a new key goes last.\<close>

fun own_set :: "string \<Rightarrow> 'v \<Rightarrow> (string \<times> 'v) list \<Rightarrow> (string \<times> 'v) list" where
  "own_set k v [] = [(k, v)]"
| "own_set k v (p # ps) = (if fst p = k then (k, v) # ps else p # own_set k v ps)"

text \<open>\<^verbatim>\<open>o[k] = v\<close> for an object \<open>v\<close>. The key \<^verbatim>\<open>__proto__\<close>, when it is not an own
  property, is the accessor of \<^verbatim>\<open>Object.prototype\<close>: the assignment replaces the prototype
  and adds no property.\<close>

definition obj_set :: "string \<Rightarrow> 'v \<Rightarrow> 'v obj \<Rightarrow> 'v obj" where
  "obj_set k v ob =
     (if k = ''__proto__'' \<and> map_of (own ob) k = None then ob\<lparr>proto := Some v\<rparr>
      else ob\<lparr>own := own_set k v (own ob)\<rparr>)"

subsection \<open>The shelf packer\<close>

text \<open>\<^verbatim>\<open>nextPowOfTwo(number) = Math.pow(2, Math.ceil(Math.log2(number)))\<close>.
  \<open>ceil_log2 n\<close> is \<open>\<lceil>log\<^sub>2 n\<rceil>\<close> for \<open>n \<ge> 1\<close>, computed on integers. For \<open>number = 0\<close> the
  logarithm is \<open>-\<infinity>\<close> and the power is \<open>0\<close>; for a negative number it is \<^verbatim>\<open>NaN\<close>. The code
  computes in IEEE doubles, the model in exact integers: the two agree on integer
  arguments of the size of a texture, and differ where the double logarithm rounds to an
  integer (for \<open>2\<^sup>4\<^sup>9 + 1\<close> the code returns \<open>2\<^sup>4\<^sup>9\<close>, the model \<open>2\<^sup>5\<^sup>0\<close>). The lemmas
  on powers of two are about the exact function.\<close>

fun ceil_log2 :: "nat \<Rightarrow> nat" where
  "ceil_log2 n = (if n \<le> 1 then 0 else Suc (ceil_log2 ((n + 1) div 2)))"

declare ceil_log2.simps [simp del]

definition nextPowOfTwo :: "int \<Rightarrow> jsnum" where
  "nextPowOfTwo number =
     (if number < 0 then NaN
      else if number = 0 then Num 0
      else Num (2 ^ ceil_log2 (nat number)))"

text \<open>A column of the current row: \<^verbatim>\<open>{icon, xOffset}\<close>.\<close>

type_synonym column = "icon \<times> int"

text \<open>\<^verbatim>\<open>Object.assign({}, icon, {x: xOffset, y: yOffset})\<close>.\<close>

definition place :: "icon \<Rightarrow> int \<Rightarrow> int \<Rightarrow> positioned" where
  "place i xo yo =
     \<lparr>id_icon = id_icon i, url = url i, width = width i, height = height i,
      x_icon = xo, y_icon = yo\<rparr>"

text \<open>\<^verbatim>\<open>buildRowMapping(mapping, columns, yOffset)\<close>: every icon of the row is written
  into the mapping under its id, at its queued x offset and the row's y offset.\<close>

fun buildRowMapping :: "positioned obj \<Rightarrow> column list \<Rightarrow> int \<Rightarrow> positioned obj" where
  "buildRowMapping m [] yo = m"
| "buildRowMapping m ((i, xo) # cols) yo =
     buildRowMapping (obj_set (prop_key (getIconId (IObj i))) (place i xo yo) m) cols yo"

text \<open>The loop of \<^verbatim>\<open>buildMapping\<close>. Its state is
  \<open>(mapping, columns, xOffset, yOffset, rowHeight)\<close>. When the icon does not fit, the
  queued row is written and a new row starts at \<open>rowHeight + yOffset + buffer\<close>; then
  the icon is queued at the current \<open>xOffset\<close>.\<close>

type_synonym pack_state = "positioned obj \<times> column list \<times> int \<times> int \<times> int"

fun buildMapping_loop :: "icon list \<Rightarrow> int \<Rightarrow> int \<Rightarrow> pack_state \<Rightarrow> pack_state" where
  "buildMapping_loop [] buffer maxCanvasWidth st = st"
| "buildMapping_loop (i # icons) buffer maxCanvasWidth (m, cols, xo, yo, rh) =
     (case (if xo + width i + buffer > maxCanvasWidth
            then (buildRowMapping m cols yo, [], 0, rh + yo + buffer, 0)
            else (m, cols, xo, yo, rh)) of
        (m1, cols1, xo1, yo1, rh1) \<Rightarrow>
          buildMapping_loop icons buffer maxCanvasWidth
            (m1, cols1 @ [(i, xo1)], xo1 + width i + buffer, yo1, max rh1 (height i)))"

text \<open>The object \<^verbatim>\<open>buildMapping\<close> returns.\<close>

record packing =
  mapping :: "positioned obj"
  xOffset :: int
  yOffset :: int
  canvasWidth :: int
  canvasHeight :: jsnum

text \<open>\<^verbatim>\<open>buildMapping({icons, buffer, mapping = {}, xOffset = 0, yOffset = 0, maxCanvasWidth})\<close>:
  an absent (\<open>None\<close>) mapping or offset takes its default; \<open>rowHeight\<close> starts at \<open>0\<close> and
  \<open>columns\<close> empty on every call.\<close>

definition buildMapping ::
  "icon list \<Rightarrow> int \<Rightarrow> positioned obj option \<Rightarrow> int option \<Rightarrow> int option \<Rightarrow> int \<Rightarrow> packing" where
  "buildMapping icons buffer m0 xo0 yo0 maxCanvasWidth =
     (case buildMapping_loop icons buffer maxCanvasWidth
             (case_option empty_obj (\<lambda>m. m) m0, [], case_option 0 (\<lambda>v. v) xo0,
              case_option 0 (\<lambda>v. v) yo0, 0) of
        (m, cols, xo, yo, rh) \<Rightarrow>
          \<lparr>mapping = (if length cols > 0 then buildRowMapping m cols yo else m),
           xOffset = xo, yOffset = yo, canvasWidth = maxCanvasWidth,
           canvasHeight = nextPowOfTwo (rh + yo + buffer)\<rparr>)"

subsection \<open>The icon differ\<close>

text \<open>\<^verbatim>\<open>Object.values(o)\<close> lists the values of the own properties in the order of their keys:
  first the keys that are array indices (canonical decimal numerals below \<open>2\<^sup>3\<^sup>2 - 1\<close>)
  in ascending numeric order, then the other keys in insertion order.\<close>

definition is_digit :: "char \<Rightarrow> bool" where
  "is_digit c = (of_char CHR ''0'' \<le> (of_char c :: nat) \<and> (of_char c :: nat) \<le> of_char CHR ''9'')"

definition digits_value :: "string \<Rightarrow> nat" where
  "digits_value s = foldl (\<lambda>n c. 10 * n + (of_char c - of_char CHR ''0'')) 0 s"

definition is_array_index :: "string \<Rightarrow> bool" where
  "is_array_index s =
     (s \<noteq> [] \<and> list_all is_digit s \<and> (if hd s = CHR ''0'' then length s = 1 else True)
      \<and> digits_value s < 2 ^ 32 - 1)"

definition Object_values :: "'v obj \<Rightarrow> 'v list" where
  "Object_values ob =
     map snd (sort_key (\<lambda>p. digits_value (fst p)) (filter (\<lambda>p. is_array_index (fst p)) (own ob))
              @ filter (\<lambda>p. \<not> is_array_index (fst p)) (own ob))"

text \<open>The errors an update can throw: \<^verbatim>\<open>Error('Icon is missing.')\<close>,
  \<^verbatim>\<open>Error('Icon url is missing.')\<close>, and the \<^verbatim>\<open>TypeError\<close> of reading a property of
  \<^verbatim>\<open>undefined\<close> or \<^verbatim>\<open>null\<close>.\<close>

datatype error = MissingIcon | MissingUrl | TypeError

text \<open>The loop of \<^verbatim>\<open>getDiffIcons\<close> over the data points, with the object \<open>icons\<close> built
  so far. The test of line 156 is
  \<^verbatim>\<open>!icons[id] || !cachedIcons[id] || !icon.url !== cachedIcons[id].url\<close>,
  evaluated left to right: \<open>cachedIcons\<close> is read only when \<open>icons[id]\<close> is truthy, and
  reading it throws when the cached mapping is \<^verbatim>\<open>undefined\<close> (\<open>None\<close>). The third
  disjunct compares the boolean \<^verbatim>\<open>!icon.url\<close> with the cached url. An icon that passes
  both checks is an object (a string has no url), so the last case is not reached.\<close>

fun getDiffIcons_loop ::
  "'d list \<Rightarrow> ('d \<Rightarrow> icon_ref) \<Rightarrow> positioned obj option \<Rightarrow> icon obj \<Rightarrow> error + icon obj" where
  "getDiffIcons_loop [] getIcon cachedIcons icons = Inr icons"
| "getDiffIcons_loop (point # data) getIcon cachedIcons icons =
     (let ic = getIcon point; k = prop_key (getIconId ic) in
      if \<not> icon_truthy ic then Inl MissingIcon
      else if \<not> truthy (icon_url ic) then Inl MissingUrl
      else (case ic of
          IObj i \<Rightarrow>
            (if \<not> found_truthy (obj_get icon_fields icons k)
             then getDiffIcons_loop data getIcon cachedIcons (obj_set k i icons)
             else (case cachedIcons of
                 None \<Rightarrow> Inl TypeError
               | Some cm \<Rightarrow>
                   if \<not> found_truthy (obj_get positioned_fields cm k)
                   then getDiffIcons_loop data getIcon cachedIcons (obj_set k i icons)
                   else if \<not> strict_eq (JBool (\<not> truthy (icon_url ic)))
                                (found_url (obj_get positioned_fields cm k))
                   then getDiffIcons_loop data getIcon cachedIcons (obj_set k i icons)
                   else getDiffIcons_loop data getIcon cachedIcons icons))
        | _ \<Rightarrow> Inl MissingUrl))"

text \<open>\<^verbatim>\<open>getDiffIcons(data, getIcon, cachedIcons)\<close>: \<^verbatim>\<open>null\<close> (\<open>Inr None\<close>) when the data or
  the accessor is missing.\<close>

definition getDiffIcons ::
  "'d list option \<Rightarrow> ('d \<Rightarrow> icon_ref) option \<Rightarrow> positioned obj option
     \<Rightarrow> error + icon obj option" where
  "getDiffIcons data getIcon cachedIcons =
     (case data of
        None \<Rightarrow> Inr None
      | Some d \<Rightarrow>
          (case getIcon of
             None \<Rightarrow> Inr None
           | Some g \<Rightarrow>
               (case getDiffIcons_loop d g cachedIcons empty_obj of
                  Inl e \<Rightarrow> Inl e
                | Inr icons \<Rightarrow> Inr (Some icons))))"

subsection \<open>The atlas cache\<close>

text \<open>Modelled from the spec: the class \<^verbatim>\<open>LRUCache\<close> is imported from
  \<^verbatim>\<open>../text-layer/lru-cache\<close>, which is not among the sources. Section 4.3 of the
  specification: \<open>get\<close> returns the state or nothing and touches a present entry;
  \<open>set\<close> inserts or replaces and makes the entry the most recently used, evicting the
  least recently touched entry first when an insertion would exceed the capacity;
  \<open>delete\<close> removes the entry. The entries are kept least recently touched first.\<close>

record ('k, 'v) LRUCache =
  limit :: nat
  entries :: "('k \<times> 'v) list"

definition lru_get :: "'k \<Rightarrow> ('k, 'v) LRUCache \<Rightarrow> 'v option \<times> ('k, 'v) LRUCache" where
  "lru_get k c =
     (case map_of (entries c) k of
        None \<Rightarrow> (None, c)
      | Some v \<Rightarrow> (Some v, c\<lparr>entries := filter (\<lambda>p. fst p \<noteq> k) (entries c) @ [(k, v)]\<rparr>))"

definition lru_set :: "'k \<Rightarrow> 'v \<Rightarrow> ('k, 'v) LRUCache \<Rightarrow> ('k, 'v) LRUCache" where
  "lru_set k v c =
     (if map_of (entries c) k \<noteq> None
      then c\<lparr>entries := filter (\<lambda>p. fst p \<noteq> k) (entries c) @ [(k, v)]\<rparr>
      else if length (entries c) \<ge> limit c
      then c\<lparr>entries := tl (entries c) @ [(k, v)]\<rparr>
      else c\<lparr>entries := entries c @ [(k, v)]\<rparr>)"

definition lru_delete :: "'k \<Rightarrow> ('k, 'v) LRUCache \<Rightarrow> ('k, 'v) LRUCache" where
  "lru_delete k c = c\<lparr>entries := filter (\<lambda>p. fst p \<noteq> k) (entries c)\<rparr>"

text \<open>Modelled from the spec: \<^verbatim>\<open>Texture2D\<close> belongs to the external library luma.gl; of
  the surface resource of section 6 the model keeps the size a texture was created with
  or resized to.\<close>

record texture =
  width_t :: int
  height_t :: jsnum

text \<open>The object cached for one context. The constructor stores
  \<^verbatim>\<open>{mapping, xOffset, yOffset, canvasWidth, canvasHeight}\<close> and an update stores
  \<^verbatim>\<open>{mapping, texture, xOffset, yOffset, canvasHeight}\<close>, so \<open>texture\<close> and \<open>canvasWidth\<close>
  are optional fields (\<open>None\<close> when the object has no such property).\<close>

record AtlasState =
  mapping_c :: "positioned obj"
  texture_c :: "texture option"
  xOffset_c :: int
  yOffset_c :: int
  canvasWidth_c :: "int option"
  canvasHeight_c :: jsnum

text \<open>What an update does besides changing the cache, in the order it happens: creating
  a texture of a width and height, resizing the texture to a width and height, calling
  \<^verbatim>\<open>onUpdate\<close>, and starting the asynchronous load of an icon that will be written into the
  texture of the given height.\<close>

datatype effect =
  TextureCreated int jsnum
| TextureResized int jsnum
| Notified
| IconLoad icon jsnum

text \<open>The global state: the module-level cache \<^verbatim>\<open>cached = new LRUCache(3)\<close> and the
  effects issued so far.\<close>

record 'g world =
  cached :: "('g, AtlasState) LRUCache"
  effects :: "effect list"

definition initial_world :: "'g world" where
  "initial_world = \<lparr>cached = \<lparr>limit = 3, entries = []\<rparr>, effects = []\<rparr>"

subsection \<open>The icon manager\<close>

text \<open>The fields of an \<^verbatim>\<open>IconManager\<close>: \<^verbatim>\<open>gl\<close>, \<^verbatim>\<open>_getIcon\<close>, \<^verbatim>\<open>_texture\<close>, \<^verbatim>\<open>_mapping\<close>
  (the own properties of the mapping of a pre-packed atlas, a plain object with entries
  of any type \<open>'u\<close>), \<^verbatim>\<open>_autoPacking\<close>,
  and whether \<^verbatim>\<open>_canvas\<close> has been created. The callback \<^verbatim>\<open>onUpdate\<close> is the effect
  \<^const>\<open>Notified\<close>.\<close>

record ('g, 'd, 'u) IconManager =
  gl :: 'g
  getIcon_m :: "('d \<Rightarrow> icon_ref) option"
  texture_m :: "texture option"
  mapping_m :: "(string \<times> 'u) list option"
  autoPacking_m :: bool
  canvas_m :: bool

text \<open>The state the constructor caches for its context.\<close>

definition empty_state :: AtlasState where
  "empty_state =
     \<lparr>mapping_c = empty_obj, texture_c = None, xOffset_c = 0, yOffset_c = 0,
      canvasWidth_c = Some 0, canvasHeight_c = Num 0\<rparr>"

text \<open>\<^verbatim>\<open>new IconManager(gl, {onUpdate})\<close>: the new manager and the world after
  \<^verbatim>\<open>cached.set(gl, {...})\<close>.\<close>

definition constructor :: "'g \<Rightarrow> 'g world \<Rightarrow> ('g, 'd, 'u) IconManager \<times> 'g world" where
  "constructor g w =
     (\<lparr>gl = g, getIcon_m = None, texture_m = None, mapping_m = None,
       autoPacking_m = False, canvas_m = False\<rparr>,
      w\<lparr>cached := lru_set g empty_state (cached w)\<rparr>)"

text \<open>\<^verbatim>\<open>_resizeTexture(texture, width, height)\<close>: the texture takes the new size; its old
  pixels are copied back, which the model does not follow.\<close>

definition resizeTexture :: "texture \<Rightarrow> int \<Rightarrow> jsnum \<Rightarrow> texture" where
  "resizeTexture t w h = t\<lparr>width_t := w, height_t := h\<rparr>"

text \<open>\<^verbatim>\<open>_loadIcons(icons, texture)\<close>: reading the 2d context of a canvas that was never
  created throws; otherwise one load is started per icon. The completion of a load
  (resampling, the write into the texture, the notification) is asynchronous and not
  part of the model.\<close>

definition loadIcons ::
  "('g, 'd, 'u) IconManager \<Rightarrow> icon list \<Rightarrow> texture \<Rightarrow> 'g world \<Rightarrow> (error + unit) \<times> 'g world" where
  "loadIcons m icons t w =
     (if \<not> canvas_m m then (Inl TypeError, w)
      else (Inr (), w\<lparr>effects := effects w @ map (\<lambda>i. IconLoad i (height_t t)) icons\<rparr>))"

text \<open>\<^verbatim>\<open>_updateAutoPacking({data, buffer, maxCanvasWidth})\<close>. \<open>cachedData\<close> is the cached
  state or \<^verbatim>\<open>{}\<close>, whose fields are all absent. Creating and resizing the texture are
  taken to succeed. The result is the error thrown, if any, and the world the call leaves
  behind.\<close>

definition updateAutoPacking ::
  "('g, 'd, 'u) IconManager \<Rightarrow> 'd list option \<Rightarrow> int \<Rightarrow> int \<Rightarrow> 'g world
     \<Rightarrow> (error + unit) \<times> 'g world" where
  "updateAutoPacking m data buffer maxCanvasWidth w =
     (case lru_get (gl m) (cached w) of
        (cachedData, c1) \<Rightarrow>
          (let w1 = w\<lparr>cached := c1\<rparr> in
           case getDiffIcons data (getIcon_m m) (map_option mapping_c cachedData) of
             Inl e \<Rightarrow> (Inl e, w1)
           | Inr diff \<Rightarrow>
               (let icons = Object_values (case_option empty_obj (\<lambda>ob. ob) diff) in
                if length icons > 0 then
                  (let p = buildMapping icons buffer (map_option mapping_c cachedData)
                             (map_option xOffset_c cachedData)
                             (map_option yOffset_c cachedData) maxCanvasWidth;
                       created = (case Option.bind cachedData texture_c of
                                    None \<Rightarrow> True | Some t \<Rightarrow> False);
                       t0 = (case Option.bind cachedData texture_c of
                               None \<Rightarrow> \<lparr>width_t = maxCanvasWidth, height_t = canvasHeight p\<rparr>
                             | Some t \<Rightarrow> t);
                       resized = num_strict_neq (height_t t0) (canvasHeight p);
                       t1 = (if resized then resizeTexture t0 (width_t t0) (canvasHeight p) else t0);
                       w2 = w1\<lparr>cached :=
                                 lru_set (gl m)
                                   \<lparr>mapping_c = mapping p, texture_c = Some t1,
                                    xOffset_c = xOffset p, yOffset_c = yOffset p,
                                    canvasWidth_c = None, canvasHeight_c = canvasHeight p\<rparr>
                                   c1,
                               effects := effects w1
                                 @ (if created then [TextureCreated maxCanvasWidth (canvasHeight p)]
                                    else [])
                                 @ (if resized then [TextureResized (width_t t0) (canvasHeight p)]
                                    else [])
                                 @ [Notified]\<rparr>
                   in loadIcons m icons t1 w2)
                else (Inr (), w1))))"

text \<open>\<^verbatim>\<open>getTexture()\<close>: the texture cached for the context in auto packing mode, which
  touches the cache entry and throws when there is none; otherwise the manager's texture.\<close>

definition getTexture ::
  "('g, 'd, 'u) IconManager \<Rightarrow> 'g world \<Rightarrow> (error + texture option) \<times> 'g world" where
  "getTexture m w =
     (if autoPacking_m m then
        (case lru_get (gl m) (cached w) of
           (None, c1) \<Rightarrow> (Inl TypeError, w\<lparr>cached := c1\<rparr>)
         | (Some s, c1) \<Rightarrow> (Inr (texture_c s), w\<lparr>cached := c1\<rparr>))
      else (Inr (texture_m m), w))"

text \<open>The constants \<^verbatim>\<open>DEFAULT_BUFFER\<close> and \<^verbatim>\<open>MAX_CANVAS_WIDTH\<close>, the buffer and the
  maximal width with which \<^verbatim>\<open>setProps\<close> calls \<^verbatim>\<open>_updateAutoPacking\<close>.\<close>

definition DEFAULT_BUFFER :: int where
  "DEFAULT_BUFFER = 4"

definition MAX_CANVAS_WIDTH :: int where
  "MAX_CANVAS_WIDTH = 1024"

text \<open>What \<^verbatim>\<open>getIconMapping\<close> returns: what it found in the cached mapping or in the
  pre-packed mapping, when that is truthy, or the empty object \<^verbatim>\<open>{}\<close>.\<close>

datatype 'u lookup = Packed "positioned found" | Prepacked "'u found" | EmptyObject

text \<open>The property key of \<^verbatim>\<open>this._mapping[icon]\<close>, where the accessor's value itself is
  the key.\<close>

fun icon_key :: "icon_ref \<Rightarrow> string" where
  "icon_key INull = ''null''"
| "icon_key IUndefined = ''undefined''"
| "icon_key (IName s) = s"
| "icon_key (IObj i) = ''[object Object]''"

text \<open>\<^verbatim>\<open>this._mapping[icon]\<close> in a plain object with the given own properties, whose
  entries are objects.\<close>

definition plain_get :: "(string \<times> 'u) list \<Rightarrow> string \<Rightarrow> 'u found" where
  "plain_get um k = obj_get (\<lambda>v k. None) \<lparr>own = um, proto = None\<rparr> k"

text \<open>\<^verbatim>\<open>getIconMapping(dataPoint)\<close>. Calling an accessor that was never set, reading
  \<^verbatim>\<open>.mapping\<close> of a missing cache entry and indexing a mapping that was never set throw.
  In auto packing mode the lookup touches the cache entry.\<close>

definition getIconMapping ::
  "('g, 'd, 'u) IconManager \<Rightarrow> 'd \<Rightarrow> 'g world \<Rightarrow> (error + 'u lookup) \<times> 'g world" where
  "getIconMapping m dataPoint w =
     (case getIcon_m m of
        None \<Rightarrow> (Inl TypeError, w)
      | Some g \<Rightarrow>
          (let ic = g dataPoint in
           if autoPacking_m m then
             (case lru_get (gl m) (cached w) of
                (None, c1) \<Rightarrow> (Inl TypeError, w\<lparr>cached := c1\<rparr>)
              | (Some s, c1) \<Rightarrow>
                  (Inr (if found_truthy
                             (obj_get positioned_fields (mapping_c s) (prop_key (getIconId ic)))
                        then Packed
                             (obj_get positioned_fields (mapping_c s) (prop_key (getIconId ic)))
                        else EmptyObject),
                   w\<lparr>cached := c1\<rparr>))
           else
             (case mapping_m m of
                None \<Rightarrow> (Inl TypeError, w)
              | Some um \<Rightarrow>
                  (Inr (if found_truthy (plain_get um (icon_key ic))
                        then Prepacked (plain_get um (icon_key ic))
                        else EmptyObject),
                   w))))"

subsection \<open>Vocabulary of the properties\<close>

text \<open>The property key under which \<^const>\<open>buildRowMapping\<close> stores an icon.\<close>

definition icon_id_key :: "icon \<Rightarrow> string" where
  "icon_id_key i = prop_key (getIconId (IObj i))"

text \<open>The height of a shelf: the largest height of the icons queued on it, \<open>0\<close> for an
  empty shelf.\<close>

definition shelf_height :: "column list \<Rightarrow> int" where
  "shelf_height cols = foldl (\<lambda>h c. max h (height (fst c))) 0 cols"

text \<open>The icons that a call of \<^const>\<open>buildMapping\<close> has queued on its last shelf when
  its loop ends.\<close>

definition last_shelf ::
  "icon list \<Rightarrow> int \<Rightarrow> positioned obj option \<Rightarrow> int option \<Rightarrow> int option \<Rightarrow> int \<Rightarrow> column list" where
  "last_shelf icons buffer m0 xo0 yo0 maxCanvasWidth =
     (case buildMapping_loop icons buffer maxCanvasWidth
             (case_option empty_obj (\<lambda>m. m) m0, [], case_option 0 (\<lambda>v. v) xo0,
              case_option 0 (\<lambda>v. v) yo0, 0) of
        (m, cols, xo, yo, rh) \<Rightarrow> cols)"

text \<open>Two positioned icons overlap when their boxes \<open>[x, x + width) \<times> [y, y + height)\<close>
  have a point in common.\<close>

definition boxes_overlap :: "positioned \<Rightarrow> positioned \<Rightarrow> bool" where
  "boxes_overlap p q =
     (x_icon p < x_icon q + width q \<and> x_icon q < x_icon p + width p
      \<and> y_icon p < y_icon q + height q \<and> y_icon q < y_icon p + height p)"

text \<open>The property keys of the values that the accessor extracts from the records of a
  batch: what \<^const>\<open>getIconId\<close> gives for each record.\<close>

definition batch_keys :: "'d list option \<Rightarrow> ('d \<Rightarrow> icon_ref) option \<Rightarrow> string set" where
  "batch_keys data getIcon =
     (case data of
        None \<Rightarrow> {}
      | Some d \<Rightarrow>
          (case getIcon of
             None \<Rightarrow> {}
           | Some g \<Rightarrow> (\<lambda>p. prop_key (getIconId (g p))) ` set d))"

subsection \<open>Concrete inputs\<close>

text \<open>Two icons, a manager in auto packing mode whose data points are the icons themselves
  (\<^verbatim>\<open>getIcon = p => p\<close>) and whose canvas exists, and the world after constructing a
  manager for context \<open>0\<close> and updating it with the batch \<open>[icon_a]\<close>.\<close>

definition icon_a :: icon where
  "icon_a = \<lparr>id_icon = Some ''a'', url = Some ''url1'', width = 40, height = 20\<rparr>"

definition icon_b :: icon where
  "icon_b = \<lparr>id_icon = Some ''b'', url = Some ''url2'', width = 60, height = 40\<rparr>"

definition auto_manager :: "(nat, icon_ref, unit) IconManager" where
  "auto_manager =
     \<lparr>gl = 0, getIcon_m = Some (\<lambda>p. p), texture_m = None, mapping_m = None,
      autoPacking_m = True, canvas_m = True\<rparr>"

definition world_a :: "nat world" where
  "world_a =
     snd (updateAutoPacking auto_manager (Some [IObj icon_a]) DEFAULT_BUFFER MAX_CANVAS_WIDTH
            (snd (constructor 0 initial_world
                    :: (nat, icon_ref, unit) IconManager \<times> nat world)))"

section \<open>Properties\<close>

subsection \<open>Rounding up to a power of two\<close>

lemma ceil_log2_upper: "n \<le> 2 ^ ceil_log2 n"
proof (induction n rule: ceil_log2.induct)
  case (1 n)
  show ?case
  proof (cases "n \<le> 1")
    case True
    then show ?thesis by (simp add: ceil_log2.simps)
  next
    case False
    then have "(n + 1) div 2 \<le> 2 ^ ceil_log2 ((n + 1) div 2)" using 1 by simp
    moreover have "n \<le> 2 * ((n + 1) div 2)" by arith
    ultimately have "n \<le> 2 * 2 ^ ceil_log2 ((n + 1) div 2)" by linarith
    with False show ?thesis by (subst ceil_log2.simps) simp
  qed
qed

lemma ceil_log2_least: "n \<le> 2 ^ j \<Longrightarrow> ceil_log2 n \<le> j"
proof (induction n arbitrary: j rule: ceil_log2.induct)
  case (1 n)
  show ?case
  proof (cases "n \<le> 1")
    case True
    then show ?thesis by (simp add: ceil_log2.simps)
  next
    case False
    with "1.prems" obtain j' where j: "j = Suc j'"
      by (cases j) auto
    from "1.prems" j have "n \<le> 2 * 2 ^ j'" by simp
    then have "(n + 1) div 2 \<le> 2 ^ j'" by arith
    with "1.IH" False have "ceil_log2 ((n + 1) div 2) \<le> j'" by simp
    with False j show ?thesis by (subst ceil_log2.simps) simp
  qed
qed

text \<open>The integer computation agrees with the ceiling of the real logarithm.\<close>

lemma ceil_log2_is_ceiling_log:
  assumes "1 \<le> n"
  shows "int (ceil_log2 n) = \<lceil>log 2 (real n)\<rceil>"
proof -
  let ?k = "ceil_log2 n"
  have up: "n \<le> 2 ^ ?k" by (rule ceil_log2_upper)
  have "log 2 (real n) \<le> real ?k"
    using up assms by (intro log2_of_power_le) auto
  moreover have "real ?k - 1 < log 2 (real n)"
  proof (cases ?k)
    case 0
    with up assms have "n = 1" by simp
    with 0 show ?thesis by simp
  next
    case (Suc j)
    have "\<not> n \<le> 2 ^ j"
    proof
      assume "n \<le> 2 ^ j"
      then have "?k \<le> j" by (rule ceil_log2_least)
      with Suc show False by simp
    qed
    then have "2 ^ j < n" by simp
    then have "real j < log 2 (real n)" by (rule less_log2_of_power)
    with Suc show ?thesis by simp
  qed
  ultimately have "\<lceil>log 2 (real n)\<rceil> = int ?k"
    by (intro ceiling_unique) auto
  then show ?thesis by simp
qed

lemma nextPowOfTwo_pos:
  "0 < n \<Longrightarrow> \<exists>k. nextPowOfTwo n = Num (2 ^ k) \<and> n \<le> 2 ^ k \<and> (\<forall>j. n \<le> 2 ^ j \<longrightarrow> k \<le> j)"
proof -
  assume n: "0 < n"
  let ?k = "ceil_log2 (nat n)"
  have "nat n \<le> 2 ^ ?k" by (rule ceil_log2_upper)
  then have up: "n \<le> 2 ^ ?k" using n by (simp add: nat_le_iff)
  have least: "\<forall>j. n \<le> 2 ^ j \<longrightarrow> ?k \<le> j"
  proof (intro allI impI)
    fix j :: nat assume "n \<le> 2 ^ j"
    then have "nat n \<le> 2 ^ j" using n by (simp add: nat_le_iff)
    then show "?k \<le> j" by (rule ceil_log2_least)
  qed
  from n up least show ?thesis by (auto simp: nextPowOfTwo_def)
qed

lemma ceil_log2_48: "ceil_log2 48 = 6"
  by (simp add: ceil_log2.simps)

subsection \<open>Invariants of the packing loop\<close>

lemma shelf_height_snoc: "shelf_height (cols @ [(i, xo)]) = max (shelf_height cols) (height i)"
  by (simp add: shelf_height_def)

lemma shelf_height_nonneg: "0 \<le> shelf_height cols"
proof (induction cols rule: rev_induct)
  case Nil show ?case by (simp add: shelf_height_def)
next
  case (snoc c cols)
  then show ?case by (cases c) (simp add: shelf_height_snoc)
qed

lemma loop_rowHeight:
  "buildMapping_loop icons buffer maxW (m, cols, xo, yo, rh) = (m', cols', xo', yo', rh')
   \<Longrightarrow> rh = shelf_height cols \<Longrightarrow> rh' = shelf_height cols'"
proof (induction icons arbitrary: m cols xo yo rh)
  case Nil
  then show ?case by auto
next
  case (Cons i icons)
  show ?case
  proof (cases "xo + width i + buffer > maxW")
    case True
    with Cons.prems(1) have
      "buildMapping_loop icons buffer maxW (buildRowMapping m cols yo, [(i, 0)], 0 + width i + buffer, rh + yo + buffer, max 0 (height i)) = (m', cols', xo', yo', rh')"
      by simp
    moreover have "max 0 (height i) = shelf_height [(i, 0)]" by (simp add: shelf_height_def)
    ultimately show ?thesis by (rule Cons.IH)
  next
    case False
    with Cons.prems(1) have
      "buildMapping_loop icons buffer maxW (m, cols @ [(i, xo)], xo + width i + buffer, yo, max rh (height i)) = (m', cols', xo', yo', rh')"
      by simp
    moreover have "max rh (height i) = shelf_height (cols @ [(i, xo)])"
      using Cons.prems(2) by (simp add: shelf_height_snoc)
    ultimately show ?thesis by (rule Cons.IH)
  qed
qed

lemma loop_yOffset:
  "buildMapping_loop icons buffer maxW (m, cols, xo, yo, rh) = (m', cols', xo', yo', rh')
   \<Longrightarrow> 0 \<le> buffer \<Longrightarrow> 0 \<le> rh \<Longrightarrow> yo \<le> yo' \<and> 0 \<le> rh'"
proof (induction icons arbitrary: m cols xo yo rh)
  case Nil
  then show ?case by simp
next
  case (Cons i icons)
  show ?case
  proof (cases "xo + width i + buffer > maxW")
    case True
    with Cons.prems(1) have
      "buildMapping_loop icons buffer maxW (buildRowMapping m cols yo, [(i, 0)], 0 + width i + buffer, rh + yo + buffer, max 0 (height i)) = (m', cols', xo', yo', rh')"
      by simp
    from Cons.IH [OF this] Cons.prems(2,3) show ?thesis by simp
  next
    case False
    with Cons.prems(1) have
      "buildMapping_loop icons buffer maxW (m, cols @ [(i, xo)], xo + width i + buffer, yo, max rh (height i)) = (m', cols', xo', yo', rh')"
      by simp
    from Cons.IH [OF this] Cons.prems(2,3) show ?thesis by simp
  qed
qed

subsection \<open>The packing example\<close>

text \<open>Claim C4. Three icons of 40 by 20 pixels with pairwise different ids (none of them
  \<^verbatim>\<open>__proto__\<close>, which names no entry), packed with
  buffer 4 and maximal width 100 into an empty mapping from the cursor \<open>(0, 0)\<close>: the
  first two icons are placed at \<open>(0, 0)\<close> and \<open>(44, 0)\<close>, the third opens a new shelf at
  \<open>(0, 24)\<close>, the cursor ends at \<open>(44, 24)\<close>, and the canvas height is \<open>64\<close>, the next power
  of two above \<open>20 + 24 + 4 = 48\<close>.\<close>

theorem buildMapping_three_icons:
  assumes "width a = 40" "height a = 20" "width b = 40" "height b = 20"
    "width c = 40" "height c = 20"
    and "distinct [icon_id_key a, icon_id_key b, icon_id_key c, ''__proto__'']"
  shows "buildMapping [a, b, c] 4 (Some empty_obj) (Some 0) (Some 0) 100 =
     \<lparr>mapping = \<lparr>own = [(icon_id_key a, place a 0 0), (icon_id_key b, place b 44 0),
                         (icon_id_key c, place c 0 24)],
                  proto = None\<rparr>,
      xOffset = 44, yOffset = 24, canvasWidth = 100, canvasHeight = Num 64\<rparr>"
  using assms
  by (simp add: buildMapping_def icon_id_key_def nextPowOfTwo_def ceil_log2_48
      obj_set_def empty_obj_def)

theorem buildMapping_three_icons_witness:
  "buildMapping
     [\<lparr>id_icon = Some ''a'', url = Some ''/a.png'', width = 40, height = 20\<rparr>,
      \<lparr>id_icon = None, url = Some ''/b.png'', width = 40, height = 20\<rparr>,
      \<lparr>id_icon = Some ''c'', url = Some ''/c.png'', width = 40, height = 20\<rparr>]
     4 (Some empty_obj) (Some 0) (Some 0) 100 =
   \<lparr>mapping = \<lparr>own =
      [(''a'', \<lparr>id_icon = Some ''a'', url = Some ''/a.png'', width = 40, height = 20,
               x_icon = 0, y_icon = 0\<rparr>),
       (''/b.png'', \<lparr>id_icon = None, url = Some ''/b.png'', width = 40, height = 20,
               x_icon = 44, y_icon = 0\<rparr>),
       (''c'', \<lparr>id_icon = Some ''c'', url = Some ''/c.png'', width = 40, height = 20,
               x_icon = 0, y_icon = 24\<rparr>)], proto = None\<rparr>,
    xOffset = 44, yOffset = 24, canvasWidth = 100, canvasHeight = Num 64\<rparr>"
  using buildMapping_three_icons
    [of "\<lparr>id_icon = Some ''a'', url = Some ''/a.png'', width = 40, height = 20\<rparr>"
        "\<lparr>id_icon = None, url = Some ''/b.png'', width = 40, height = 20\<rparr>"
        "\<lparr>id_icon = Some ''c'', url = Some ''/c.png'', width = 40, height = 20\<rparr>"]
  by (simp add: icon_id_key_def place_def)

subsection \<open>The canvas height\<close>

text \<open>The variable \<open>rowHeight\<close> of a call: for a positive buffer and a starting
  \<open>yOffset \<ge> 0\<close>, the canvas height is \<open>2\<^sup>k\<close> for the least \<open>k\<close> with
  \<open>2\<^sup>k \<ge> rowHeight + yOffset + buffer\<close>, where \<open>rowHeight\<close> is the largest height among the
  icons that this call has queued on its last shelf. Icons that an earlier call left on
  that shelf do not count.\<close>

lemma buildMapping_canvasHeight_this_call:
  assumes "0 < buffer" and "0 \<le> case_option 0 (\<lambda>v. v) yo0"
  shows "\<exists>k. canvasHeight (buildMapping icons buffer m0 xo0 yo0 maxCanvasWidth) = Num (2 ^ k)
     \<and> shelf_height (last_shelf icons buffer m0 xo0 yo0 maxCanvasWidth)
         + yOffset (buildMapping icons buffer m0 xo0 yo0 maxCanvasWidth) + buffer \<le> 2 ^ k
     \<and> (\<forall>j. shelf_height (last_shelf icons buffer m0 xo0 yo0 maxCanvasWidth)
         + yOffset (buildMapping icons buffer m0 xo0 yo0 maxCanvasWidth) + buffer \<le> 2 ^ j
         \<longrightarrow> k \<le> j)"
proof -
  obtain m cols xo yo rh where
    loop: "buildMapping_loop icons buffer maxCanvasWidth
             (case_option empty_obj (\<lambda>m. m) m0, [], case_option 0 (\<lambda>v. v) xo0,
              case_option 0 (\<lambda>v. v) yo0, 0) = (m, cols, xo, yo, rh)"
    by (metis prod_cases5)
  have rh: "rh = shelf_height cols"
    by (rule loop_rowHeight [OF loop]) (simp add: shelf_height_def)
  from loop_yOffset [OF loop] assms have "0 \<le> yo" "0 \<le> rh" by simp_all
  with assms(1) have pos: "0 < rh + yo + buffer" by simp
  have ch: "canvasHeight (buildMapping icons buffer m0 xo0 yo0 maxCanvasWidth)
      = nextPowOfTwo (rh + yo + buffer)"
    and yo: "yOffset (buildMapping icons buffer m0 xo0 yo0 maxCanvasWidth) = yo"
    and ls: "last_shelf icons buffer m0 xo0 yo0 maxCanvasWidth = cols"
    by (simp_all add: buildMapping_def last_shelf_def loop)
  from nextPowOfTwo_pos [OF pos] show ?thesis
    unfolding ch yo ls rh .
qed

text \<open>Claim C6. The canvas height is to be the least power of two that is at least the
  height of the last shelf plus its top plus the buffer. After \<open>icon_a\<close> (40 by 20) at
  \<open>(0, 0)\<close>, a resumed call with an icon of 10 by 5 puts it beside \<open>icon_a\<close>, on the shelf at
  \<open>y = 0\<close>, which is 20 high, and returns the canvas height \<open>16\<close>: the next power of two
  above \<open>5 + 0 + 4\<close>, where \<open>20 + 0 + 4 = 24\<close> asks for \<open>32\<close>. The canvas ends above the
  bottom of \<open>icon_a\<close>.\<close>

theorem resumed_buildMapping_canvasHeight:
  "map_of (own (mapping (buildMapping
      [\<lparr>id_icon = Some ''c'', url = Some ''url3'', width = 10, height = 5\<rparr>] 4
      (Some (mapping (buildMapping [icon_a] 4 None None None 100)))
      (Some (xOffset (buildMapping [icon_a] 4 None None None 100)))
      (Some (yOffset (buildMapping [icon_a] 4 None None None 100))) 100))) ''a''
     = Some (place icon_a 0 0)
   \<and> map_of (own (mapping (buildMapping
      [\<lparr>id_icon = Some ''c'', url = Some ''url3'', width = 10, height = 5\<rparr>] 4
      (Some (mapping (buildMapping [icon_a] 4 None None None 100)))
      (Some (xOffset (buildMapping [icon_a] 4 None None None 100)))
      (Some (yOffset (buildMapping [icon_a] 4 None None None 100))) 100))) ''c''
     = Some (place \<lparr>id_icon = Some ''c'', url = Some ''url3'', width = 10, height = 5\<rparr> 44 0)
   \<and> yOffset (buildMapping
      [\<lparr>id_icon = Some ''c'', url = Some ''url3'', width = 10, height = 5\<rparr>] 4
      (Some (mapping (buildMapping [icon_a] 4 None None None 100)))
      (Some (xOffset (buildMapping [icon_a] 4 None None None 100)))
      (Some (yOffset (buildMapping [icon_a] 4 None None None 100))) 100) = 0
   \<and> canvasHeight (buildMapping
      [\<lparr>id_icon = Some ''c'', url = Some ''url3'', width = 10, height = 5\<rparr>] 4
      (Some (mapping (buildMapping [icon_a] 4 None None None 100)))
      (Some (xOffset (buildMapping [icon_a] 4 None None None 100)))
      (Some (yOffset (buildMapping [icon_a] 4 None None None 100))) 100) = Num 16
   \<and> y_icon (place icon_a 0 0) + height (place icon_a 0 0) = 20"
  by code_simp

subsection \<open>The cache\<close>

lemma map_of_filter_key:
  "map_of (filter (\<lambda>p. fst p \<noteq> k) es) k' = (if k' = k then None else map_of es k')"
  by (induction es) auto

lemma lru_get_lookup: "fst (lru_get k c) = map_of (entries c) k"
  by (simp add: lru_get_def split: option.splits)

lemma lru_get_map_of: "map_of (entries (snd (lru_get k c))) = map_of (entries c)"
proof (cases "map_of (entries c) k")
  case None
  then show ?thesis by (simp add: lru_get_def)
next
  case (Some v)
  show ?thesis
  proof
    fix k'
    show "map_of (entries (snd (lru_get k c))) k' = map_of (entries c) k'"
      using Some by (simp add: lru_get_def map_add_def map_of_filter_key split: option.splits)
  qed
qed

lemma map_of_tl_None: "map_of es k = None \<Longrightarrow> map_of (tl es) k = None"
  by (cases es) (auto split: if_splits)

lemma lru_set_lookup: "map_of (entries (lru_set k v c)) k = Some v"
  by (simp add: lru_set_def map_add_def map_of_filter_key map_of_tl_None)

lemma map_of_tl_other: "es = [] \<or> k \<noteq> fst (hd es) \<Longrightarrow> map_of (tl es) k = map_of es k"
  by (cases es) auto

lemma lru_set_other:
  "k' \<noteq> k \<Longrightarrow>
   map_of (entries (lru_set k v c)) k' = map_of (entries c) k'
   \<or> (map_of (entries c) k = None \<and> limit c \<le> length (entries c)
      \<and> entries c \<noteq> [] \<and> k' = fst (hd (entries c)))"
proof (cases "map_of (entries c) k \<noteq> None")
  case True
  assume "k' \<noteq> k"
  with True show ?thesis
    by (simp add: lru_set_def map_add_def map_of_filter_key split: option.splits)
next
  case absent: False
  assume neq: "k' \<noteq> k"
  show ?thesis
  proof (cases "limit c \<le> length (entries c)")
    case full: True
    show ?thesis
    proof (cases "entries c = [] \<or> k' \<noteq> fst (hd (entries c))")
      case True
      then have "map_of (tl (entries c)) k' = map_of (entries c) k'"
        by (rule map_of_tl_other)
      with absent full neq show ?thesis
        by (simp add: lru_set_def map_add_def split: option.splits)
    next
      case False
      with absent full show ?thesis by simp
    qed
  next
    case False
    with absent neq show ?thesis
      by (simp add: lru_set_def map_add_def split: option.splits)
  qed
qed

subsection \<open>Evaluation of the concrete inputs\<close>

lemma world_a_eval:
  "world_a =
     \<lparr>cached = \<lparr>limit = 3, entries =
        [(0, \<lparr>mapping_c = \<lparr>own = [(''a'', place icon_a 0 0)], proto = None\<rparr>,
              texture_c = Some \<lparr>width_t = 1024, height_t = Num 32\<rparr>,
              xOffset_c = 44, yOffset_c = 0, canvasWidth_c = None,
              canvasHeight_c = Num 32\<rparr>)]\<rparr>,
      effects = [TextureCreated 1024 (Num 32), Notified, IconLoad icon_a (Num 32)]\<rparr>"
  by code_simp

lemma update_b_eval:
  "getDiffIcons (Some [IObj icon_b]) (getIcon_m auto_manager)
      (map_option mapping_c (map_of (entries (cached world_a)) (gl auto_manager)))
     = Inr (Some \<lparr>own = [(''b'', icon_b)], proto = None\<rparr>)
   \<and> buildMapping (Object_values \<lparr>own = [(''b'', icon_b)], proto = None\<rparr>) 4
        (map_option mapping_c (map_of (entries (cached world_a)) (gl auto_manager)))
        (map_option xOffset_c (map_of (entries (cached world_a)) (gl auto_manager)))
        (map_option yOffset_c (map_of (entries (cached world_a)) (gl auto_manager))) 1024
     = \<lparr>mapping = \<lparr>own = [(''a'', place icon_a 0 0), (''b'', place icon_b 44 0)],
                     proto = None\<rparr>,
        xOffset = 108, yOffset = 0, canvasWidth = 1024, canvasHeight = Num 64\<rparr>
   \<and> Option.bind (map_of (entries (cached world_a)) (gl auto_manager)) texture_c
     = Some \<lparr>width_t = 1024, height_t = Num 32\<rparr>"
  by code_simp

subsection \<open>The differ returns icons that are cached with an unchanged url\<close>

text \<open>The cached url never decides: a boolean is not strictly equal to a url. So, when a
  mapping is cached, every icon of a batch that has a url is put into the result,
  whatever the mapping holds.\<close>

lemma field_val_not_bool: "field_val x \<noteq> JBool b"
  by (cases x) simp_all

lemma strict_eq_bool_url: "\<not> strict_eq (JBool b) (found_url f)"
  by (cases f rule: found_url.cases) (simp_all add: strict_eq_def field_val_not_bool [symmetric])

lemma getDiffIcons_loop_always_sets:
  assumes "getIcon p = IObj i" and "truthy (field_val (url i))"
  shows "getDiffIcons_loop (p # d) getIcon (Some cm) icons
     = getDiffIcons_loop d getIcon (Some cm) (obj_set (icon_id_key i) i icons)"
  using assms by (simp add: Let_def icon_id_key_def strict_eq_bool_url)

text \<open>Claim C1. The differ is to return only the icons that are not cached or whose url
  changed. For the cached mapping \<open>{a: url1}\<close> and the batch \<open>[{id: a, url: url1}]\<close> the
  code returns \<open>{a: url1}\<close>: the test of line 156 is a disjunction whose first disjunct
  \<^verbatim>\<open>!icons[id]\<close> holds for the first icon of an id, and whose last disjunct compares a
  boolean with a string.\<close>

theorem getDiffIcons_unchanged_url_returned:
  "getDiffIcons (Some [IObj icon_a]) (Some (\<lambda>p. p))
      (Some \<lparr>own = [(''a'', place icon_a 0 0)], proto = None\<rparr>)
     = Inr (Some \<lparr>own = [(''a'', icon_a)], proto = None\<rparr>)"
  by code_simp

subsection \<open>Updating twice with the same batch\<close>

text \<open>Claim C2. A second update with a batch whose icons are all cached with unchanged
  urls is to be a no-op. In the code the second update with the batch \<open>[icon_a]\<close> packs the
  icon again: its entry moves from \<open>(0, 0)\<close> to \<open>(44, 0)\<close>, the cursor from \<open>(44, 0)\<close> to
  \<open>(88, 0)\<close>, and a notification and an icon load are issued.\<close>

theorem update_same_batch_repacks:
  "fst (updateAutoPacking auto_manager (Some [IObj icon_a]) DEFAULT_BUFFER MAX_CANVAS_WIDTH world_a)
     = Inr ()
   \<and> map_of (entries (cached world_a)) 0 =
       Some \<lparr>mapping_c = \<lparr>own = [(''a'', place icon_a 0 0)], proto = None\<rparr>,
             texture_c = Some \<lparr>width_t = 1024, height_t = Num 32\<rparr>,
             xOffset_c = 44, yOffset_c = 0, canvasWidth_c = None, canvasHeight_c = Num 32\<rparr>
   \<and> map_of (entries (cached (snd (updateAutoPacking auto_manager (Some [IObj icon_a])
         DEFAULT_BUFFER MAX_CANVAS_WIDTH world_a)))) 0 =
       Some \<lparr>mapping_c = \<lparr>own = [(''a'', place icon_a 44 0)], proto = None\<rparr>,
             texture_c = Some \<lparr>width_t = 1024, height_t = Num 32\<rparr>,
             xOffset_c = 88, yOffset_c = 0, canvasWidth_c = None, canvasHeight_c = Num 32\<rparr>
   \<and> effects (snd (updateAutoPacking auto_manager (Some [IObj icon_a])
         DEFAULT_BUFFER MAX_CANVAS_WIDTH world_a))
       = effects world_a @ [Notified, IconLoad icon_a (Num 32)]"
  by code_simp

subsection \<open>Overlap after resuming\<close>

text \<open>Claim C3. Icons packed by a sequence of resumed calls are to have disjoint boxes.
  In the code a call starts with \<open>rowHeight = 0\<close>, so the first new shelf of a resumed call
  starts at \<open>yOffset + buffer\<close> whatever the height of the shelf left by the call before:
  after \<open>icon_a\<close> (40 by 20) at \<open>(0, 0)\<close>, an icon of 60 by 20 that does not fit beside it
  is placed at \<open>(0, 4)\<close>.\<close>

theorem resumed_buildMapping_overlap:
  "map_of (own (mapping (buildMapping
      [\<lparr>id_icon = Some ''b'', url = Some ''url2'', width = 60, height = 20\<rparr>] 4
      (Some (mapping (buildMapping [icon_a] 4 None None None 100)))
      (Some (xOffset (buildMapping [icon_a] 4 None None None 100)))
      (Some (yOffset (buildMapping [icon_a] 4 None None None 100))) 100))) ''a''
     = Some (place icon_a 0 0)
   \<and> map_of (own (mapping (buildMapping
      [\<lparr>id_icon = Some ''b'', url = Some ''url2'', width = 60, height = 20\<rparr>] 4
      (Some (mapping (buildMapping [icon_a] 4 None None None 100)))
      (Some (xOffset (buildMapping [icon_a] 4 None None None 100)))
      (Some (yOffset (buildMapping [icon_a] 4 None None None 100))) 100))) ''b''
     = Some (place \<lparr>id_icon = Some ''b'', url = Some ''url2'', width = 60, height = 20\<rparr> 0 4)
   \<and> boxes_overlap (place icon_a 0 0)
        (place \<lparr>id_icon = Some ''b'', url = Some ''url2'', width = 60, height = 20\<rparr> 0 4)"
  by code_simp

subsection \<open>A batch with a missing icon or url\<close>

lemma getDiffIcons_loop_invalid:
  "\<exists>p\<in>set d. \<not> icon_truthy (g p) \<or> \<not> truthy (icon_url (g p)) \<Longrightarrow>
   getDiffIcons_loop d g (Some cm) icons = Inl MissingIcon
   \<or> getDiffIcons_loop d g (Some cm) icons = Inl MissingUrl"
proof (induction d arbitrary: icons)
  case Nil
  then show ?case by simp
next
  case (Cons p d)
  show ?case
  proof (cases "\<not> icon_truthy (g p) \<or> \<not> truthy (icon_url (g p))")
    case True
    then show ?thesis by (auto simp: Let_def)
  next
    case False
    with Cons.prems have tl: "\<exists>p\<in>set d. \<not> icon_truthy (g p) \<or> \<not> truthy (icon_url (g p))"
      by auto
    from False obtain i where i: "g p = IObj i"
      by (cases "g p") auto
    from Cons.IH [OF tl] False i show ?thesis
      by (simp add: Let_def split: option.splits)
  qed
qed

lemma getDiffIcons_loop_throws:
  "\<exists>p\<in>set d. \<not> icon_truthy (g p) \<or> \<not> truthy (icon_url (g p)) \<Longrightarrow>
   \<exists>e. getDiffIcons_loop d g c icons = Inl e"
proof (induction d arbitrary: icons)
  case Nil
  then show ?case by simp
next
  case (Cons p d)
  show ?case
  proof (cases "\<not> icon_truthy (g p) \<or> \<not> truthy (icon_url (g p))")
    case True
    then show ?thesis by (auto simp: Let_def)
  next
    case False
    with Cons.prems have tl: "\<exists>p\<in>set d. \<not> icon_truthy (g p) \<or> \<not> truthy (icon_url (g p))"
      by auto
    from False obtain i where i: "g p = IObj i"
      by (cases "g p") auto
    have a: "\<exists>e. getDiffIcons_loop d g c (obj_set (prop_key (getIconId (IObj i))) i icons) = Inl e"
      by (rule Cons.IH [OF tl])
    have b: "\<exists>e. getDiffIcons_loop d g c icons = Inl e"
      by (rule Cons.IH [OF tl])
    from a b False i show ?thesis
      by (auto simp: Let_def split: option.splits)
  qed
qed

text \<open>Claim C7. When some record of the batch yields no icon or an icon without url, the
  update throws; when the context has a cached state, the error is \<open>MissingIcon\<close> or
  \<open>MissingUrl\<close>. The only access to the cache is the read, which leaves every cached state
  as it was, and no effect is issued.\<close>

theorem update_invalid_batch:
  assumes "getIcon_m m = Some g"
    and "\<exists>p\<in>set d. \<not> icon_truthy (g p) \<or> \<not> truthy (icon_url (g p))"
  shows "(\<exists>e. fst (updateAutoPacking m (Some d) buffer maxCanvasWidth w) = Inl e
            \<and> (map_of (entries (cached w)) (gl m) \<noteq> None
                 \<longrightarrow> e = MissingIcon \<or> e = MissingUrl))
     \<and> cached (snd (updateAutoPacking m (Some d) buffer maxCanvasWidth w))
         = snd (lru_get (gl m) (cached w))
     \<and> map_of (entries (cached (snd (updateAutoPacking m (Some d) buffer maxCanvasWidth w))))
         = map_of (entries (cached w))
     \<and> effects (snd (updateAutoPacking m (Some d) buffer maxCanvasWidth w)) = effects w"
proof -
  let ?old = "map_of (entries (cached w)) (gl m)"
  obtain c1 where get: "lru_get (gl m) (cached w) = (?old, c1)"
    using lru_get_lookup [of "gl m" "cached w"] by (cases "lru_get (gl m) (cached w)") simp
  from getDiffIcons_loop_throws [OF assms(2)]
  obtain e where e: "getDiffIcons_loop d g (map_option mapping_c ?old) empty_obj = Inl e"
    by blast
  have kind: "e = MissingIcon \<or> e = MissingUrl" if "?old \<noteq> None"
  proof -
    from that obtain s where "?old = Some s" by auto
    with e getDiffIcons_loop_invalid [OF assms(2), of "mapping_c s" empty_obj] show ?thesis
      by auto
  qed
  have upd: "updateAutoPacking m (Some d) buffer maxCanvasWidth w = (Inl e, w\<lparr>cached := c1\<rparr>)"
    by (simp add: updateAutoPacking_def get getDiffIcons_def assms(1) e)
  have "map_of (entries c1) = map_of (entries (cached w))"
    using lru_get_map_of [of "gl m" "cached w"] by (simp add: get)
  with kind show ?thesis by (simp add: upd get)
qed

theorem update_invalid_batch_witness:
  "getIcon_m auto_manager = Some (\<lambda>p. p)
   \<and> map_of (entries (cached world_a)) (gl auto_manager) \<noteq> None
   \<and> (\<exists>p\<in>set [IObj icon_a, INull]. \<not> icon_truthy p \<or> \<not> truthy (icon_url p))
   \<and> fst (updateAutoPacking auto_manager (Some [IObj icon_a, INull]) 4 1024 world_a)
       = Inl MissingIcon
   \<and> map_of (entries (cached (snd (updateAutoPacking auto_manager
         (Some [IObj icon_a, INull]) 4 1024 world_a)))) 0
       = map_of (entries (cached world_a)) 0
   \<and> effects (snd (updateAutoPacking auto_manager (Some [IObj icon_a, INull]) 4 1024 world_a))
       = effects world_a"
proof -
  have g: "getIcon_m auto_manager = Some (\<lambda>p. p)" by (simp add: auto_manager_def)
  have s: "map_of (entries (cached world_a)) (gl auto_manager) =
       Some \<lparr>mapping_c = \<lparr>own = [(''a'', place icon_a 0 0)], proto = None\<rparr>,
             texture_c = Some \<lparr>width_t = 1024, height_t = Num 32\<rparr>,
             xOffset_c = 44, yOffset_c = 0, canvasWidth_c = None, canvasHeight_c = Num 32\<rparr>"
    by (simp add: world_a_eval auto_manager_def)
  have i: "\<exists>p\<in>set [IObj icon_a, INull]. \<not> icon_truthy p \<or> \<not> truthy (icon_url p)" by simp
  have e: "fst (updateAutoPacking auto_manager (Some [IObj icon_a, INull]) 4 1024 world_a)
       \<noteq> Inl MissingUrl"
    by code_simp
  note t = update_invalid_batch [OF g i, of 4 1024 world_a]
  from t s e have r: "fst (updateAutoPacking auto_manager (Some [IObj icon_a, INull]) 4 1024 world_a)
       = Inl MissingIcon"
    by auto
  from t have c: "map_of (entries (cached (snd (updateAutoPacking auto_manager
         (Some [IObj icon_a, INull]) 4 1024 world_a))))
       = map_of (entries (cached world_a))"
    by blast
  from t have f: "effects (snd (updateAutoPacking auto_manager (Some [IObj icon_a, INull])
         4 1024 world_a)) = effects world_a"
    by blast
  from g s i r f show ?thesis by (simp add: c)
qed

subsection \<open>Looking up an icon that is not in the mapping\<close>

text \<open>When the lookup finds nothing in the active mapping (in auto packing mode the mapping
  cached for the context, under the icon's id; otherwise the mapping supplied to the
  manager, under the accessor's value), \<^const>\<open>getIconMapping\<close> returns the empty object.\<close>

lemma getIconMapping_not_found:
  assumes "getIcon_m m = Some g"
    and "(autoPacking_m m \<and> (\<exists>s. map_of (entries (cached w)) (gl m) = Some s
            \<and> obj_get positioned_fields (mapping_c s) (prop_key (getIconId (g p))) = NotFound))
       \<or> (\<not> autoPacking_m m \<and> (\<exists>um. mapping_m m = Some um
            \<and> plain_get um (icon_key (g p)) = NotFound))"
  shows "fst (getIconMapping m p w) = Inr EmptyObject"
proof -
  from assms(2) show ?thesis
  proof (elim disjE conjE exE)
    fix s assume a: "autoPacking_m m" "map_of (entries (cached w)) (gl m) = Some s"
      "obj_get positioned_fields (mapping_c s) (prop_key (getIconId (g p))) = NotFound"
    then show ?thesis
      by (simp add: getIconMapping_def assms(1) lru_get_def)
  next
    fix um assume "\<not> autoPacking_m m" "mapping_m m = Some um"
      "plain_get um (icon_key (g p)) = NotFound"
    then show ?thesis
      by (simp add: getIconMapping_def assms(1))
  qed
qed

text \<open>Claim C10. For an icon whose id has no entry in the active mapping,
  \<^const>\<open>getIconMapping\<close> is to return the empty object. The lookup \<^verbatim>\<open>mapping[id] || {}\<close>
  goes through the prototype of the mapping: the cached mapping \<open>{a: ...}\<close> has no entry
  \<^verbatim>\<open>constructor\<close>, and for an icon with that id the code returns the function that the
  mapping inherits from \<^verbatim>\<open>Object.prototype\<close>; likewise for the name \<^verbatim>\<open>toString\<close> in the
  supplied mapping \<open>{marker: ...}\<close> of a manager that is not in auto packing mode.\<close>

theorem getIconMapping_inherited_name:
  "map_option (\<lambda>s. map_of (own (mapping_c s)) ''constructor'')
       (map_of (entries (cached world_a)) 0) = Some None
   \<and> fst (getIconMapping auto_manager
          (IObj \<lparr>id_icon = Some ''constructor'', url = Some ''url3'', width = 8, height = 8\<rparr>)
          world_a) = Inr (Packed Builtin)
   \<and> map_of [(''marker'', ())] ''toString'' = None
   \<and> fst (getIconMapping (auto_manager\<lparr>autoPacking_m := False,
            mapping_m := Some [(''marker'', ())]\<rparr>) (IName ''toString'') world_a)
       = Inr (Prepacked Builtin)"
  by (simp add: getIconMapping_def auto_manager_def world_a_eval lru_get_def obj_get_def
      plain_get_def positioned_fields_def icon_fields_def Object_prototype_names_def)

subsection \<open>What an update commits\<close>

lemma length_Object_values: "length (Object_values ob) = length (own ob)"
  by (simp add: Object_values_def sum_length_filter_compl)

lemma set_Object_values: "set (Object_values ob) = snd ` set (own ob)"
  by (auto simp: Object_values_def)

lemma loadIcons_cached: "cached (snd (loadIcons m icons t w)) = cached w"
  by (simp add: loadIcons_def)

lemma num_strict_neq_update:
  "(if num_strict_neq (height_t t) h then resizeTexture t (width_t t) h else t)
     = t\<lparr>height_t := h\<rparr>"
  by (cases "height_t t"; cases h) (auto simp: resizeTexture_def)

text \<open>When the differ returns icons, the cache after the update is the cache after the
  read with one state set for the context.\<close>

lemma updateAutoPacking_sets:
  assumes "old = map_of (entries (cached w)) (gl m)"
    and "getDiffIcons data (getIcon_m m) (map_option mapping_c old) = Inr (Some ob)"
    and "own ob \<noteq> []"
    and "p = buildMapping (Object_values ob) buffer (map_option mapping_c old)
               (map_option xOffset_c old) (map_option yOffset_c old) maxCanvasWidth"
  shows "cached (snd (updateAutoPacking m data buffer maxCanvasWidth w))
     = lru_set (gl m)
         \<lparr>mapping_c = mapping p,
          texture_c = Some (case Option.bind old texture_c of
              None \<Rightarrow> \<lparr>width_t = maxCanvasWidth, height_t = canvasHeight p\<rparr>
            | Some t \<Rightarrow> t\<lparr>height_t := canvasHeight p\<rparr>),
          xOffset_c = xOffset p, yOffset_c = yOffset p,
          canvasWidth_c = None, canvasHeight_c = canvasHeight p\<rparr>
         (snd (lru_get (gl m) (cached w)))"
proof -
  obtain c1 where get: "lru_get (gl m) (cached w) = (old, c1)"
    using assms(1) lru_get_lookup [of "gl m" "cached w"] by (cases "lru_get (gl m) (cached w)") simp
  have len: "length (Object_values ob) > 0"
    using assms(3) by (simp add: length_Object_values)
  show ?thesis
    using len assms(2)
    by (simp add: updateAutoPacking_def get Let_def loadIcons_cached
        assms(4) [symmetric] num_strict_neq_update split: option.splits)
qed

lemma updateAutoPacking_no_icons:
  assumes "\<forall>ob. getDiffIcons data (getIcon_m m)
      (map_option mapping_c (map_of (entries (cached w)) (gl m))) = Inr (Some ob)
        \<longrightarrow> own ob = []"
  shows "snd (updateAutoPacking m data buffer maxCanvasWidth w)
     = w\<lparr>cached := snd (lru_get (gl m) (cached w))\<rparr>"
proof -
  obtain c1 where get: "lru_get (gl m) (cached w) = (map_of (entries (cached w)) (gl m), c1)"
    using lru_get_lookup [of "gl m" "cached w"] by (cases "lru_get (gl m) (cached w)") simp
  show ?thesis
  proof (cases "getDiffIcons data (getIcon_m m)
      (map_option mapping_c (map_of (entries (cached w)) (gl m)))")
    case (Inl e)
    then show ?thesis by (simp add: updateAutoPacking_def get)
  next
    case (Inr r)
    show ?thesis
    proof (cases r)
      case None
      with Inr show ?thesis
        by (simp add: updateAutoPacking_def get Object_values_def empty_obj_def)
    next
      case (Some ob)
      with Inr assms have "own ob = []" by simp
      with Inr Some show ?thesis by (simp add: updateAutoPacking_def get Object_values_def)
    qed
  qed
qed

text \<open>Claim C8, as stated: every committed state is to contain \<open>canvasWidth\<close>, equal to
  the maximal canvas width. The state committed by the first update of a manager has no
  \<open>canvasWidth\<close>: the object passed to \<^verbatim>\<open>cached.set\<close> has the fields \<open>mapping\<close>,
  \<open>texture\<close>, \<open>xOffset\<close>, \<open>yOffset\<close> and \<open>canvasHeight\<close>, as the comment on the cache
  documents.\<close>

theorem committed_state_lacks_canvasWidth:
  "map_option canvasWidth_c (map_of (entries (cached
      (snd (updateAutoPacking auto_manager (Some [IObj icon_a]) DEFAULT_BUFFER MAX_CANVAS_WIDTH
            (snd (constructor 0 initial_world
                    :: (nat, icon_ref, unit) IconManager \<times> nat world)))))) 0)
     = Some None"
  using world_a_eval by (simp add: world_a_def)

text \<open>Claim C8, amended. When the differ returns at least one icon for a batch, the state
  committed for the context consists of the mapping, the cursor and the canvas height
  that the packer returns for these icons, and of the texture: a new texture of the maximal
  canvas width when the context had none, the cached texture otherwise, with the canvas
  height as its height. The committed state has no \<open>canvasWidth\<close>.\<close>

theorem committed_state_fields:
  assumes "old = map_of (entries (cached w)) (gl m)"
    and "getDiffIcons data (getIcon_m m) (map_option mapping_c old) = Inr (Some ob)"
    and "own ob \<noteq> []"
    and "p = buildMapping (Object_values ob) buffer (map_option mapping_c old)
               (map_option xOffset_c old) (map_option yOffset_c old) maxCanvasWidth"
  shows "map_of (entries (cached (snd (updateAutoPacking m data buffer maxCanvasWidth w)))) (gl m)
     = Some \<lparr>mapping_c = mapping p,
             texture_c = Some (case Option.bind old texture_c of
                 None \<Rightarrow> \<lparr>width_t = maxCanvasWidth, height_t = canvasHeight p\<rparr>
               | Some t \<Rightarrow> t\<lparr>height_t := canvasHeight p\<rparr>),
             xOffset_c = xOffset p, yOffset_c = yOffset p,
             canvasWidth_c = None, canvasHeight_c = canvasHeight p\<rparr>"
proof -
  have "cached (snd (updateAutoPacking m data buffer maxCanvasWidth w))
     = lru_set (gl m)
         \<lparr>mapping_c = mapping p,
          texture_c = Some (case Option.bind old texture_c of
              None \<Rightarrow> \<lparr>width_t = maxCanvasWidth, height_t = canvasHeight p\<rparr>
            | Some t \<Rightarrow> t\<lparr>height_t := canvasHeight p\<rparr>),
          xOffset_c = xOffset p, yOffset_c = yOffset p,
          canvasWidth_c = None, canvasHeight_c = canvasHeight p\<rparr>
         (snd (lru_get (gl m) (cached w)))"
    using assms by (rule updateAutoPacking_sets)
  then show ?thesis by (simp only: lru_set_lookup)
qed

theorem committed_state_fields_witness:
  "getDiffIcons (Some [IObj icon_b]) (getIcon_m auto_manager)
      (map_option mapping_c (map_of (entries (cached world_a)) (gl auto_manager)))
     = Inr (Some \<lparr>own = [(''b'', icon_b)], proto = None\<rparr>)
   \<and> own \<lparr>own = [(''b'', icon_b)], proto = None :: icon option\<rparr> \<noteq> []
   \<and> map_of (entries (cached (snd (updateAutoPacking auto_manager (Some [IObj icon_b])
        4 1024 world_a)))) (gl auto_manager)
     = Some \<lparr>mapping_c = \<lparr>own = [(''a'', place icon_a 0 0), (''b'', place icon_b 44 0)],
                           proto = None\<rparr>,
             texture_c = Some \<lparr>width_t = 1024, height_t = Num 64\<rparr>,
             xOffset_c = 108, yOffset_c = 0,
             canvasWidth_c = None, canvasHeight_c = Num 64\<rparr>"
  using committed_state_fields [OF refl conjunct1 [OF update_b_eval] _ refl, of 4 1024]
    update_b_eval
  by simp

subsection \<open>Entries of icons that are not in the batch\<close>

lemma map_of_own_set: "map_of (own_set k v m) = (map_of m)(k \<mapsto> v)"
  by (induction m) auto

lemma values_own_set: "snd ` set (own_set k v m) \<subseteq> insert v (snd ` set m)"
  by (induction m) auto

lemma obj_set_other: "k' \<noteq> k \<Longrightarrow> map_of (own (obj_set k v m)) k' = map_of (own m) k'"
  by (simp add: obj_set_def map_of_own_set)

lemma values_obj_set: "snd ` set (own (obj_set k v m)) \<subseteq> insert v (snd ` set (own m))"
  using values_own_set [of k v "own m"] by (auto simp: obj_set_def)

lemma buildRowMapping_other:
  "k \<notin> icon_id_key ` fst ` set cols \<Longrightarrow>
   map_of (own (buildRowMapping m cols yo)) k = map_of (own m) k"
proof (induction cols arbitrary: m)
  case Nil
  then show ?case by simp
next
  case (Cons c cols)
  obtain i xo where c: "c = (i, xo)" by (cases c)
  from Cons.prems c have k: "k \<noteq> prop_key (getIconId (IObj i))"
    and rest: "k \<notin> icon_id_key ` fst ` set cols"
    by (auto simp: icon_id_key_def)
  from Cons.IH [OF rest] k show ?case
    by (simp add: c obj_set_other)
qed

lemma buildMapping_loop_other:
  "buildMapping_loop icons buffer maxW (m, cols, xo, yo, rh) = (m', cols', xo', yo', rh')
   \<Longrightarrow> k \<notin> icon_id_key ` set icons \<Longrightarrow> k \<notin> icon_id_key ` fst ` set cols
   \<Longrightarrow> map_of (own m') k = map_of (own m) k \<and> k \<notin> icon_id_key ` fst ` set cols'"
proof (induction icons arbitrary: m cols xo yo rh)
  case Nil
  then show ?case by auto
next
  case (Cons i icons)
  from Cons.prems(2) have ki: "k \<noteq> icon_id_key i" and rest: "k \<notin> icon_id_key ` set icons"
    by auto
  show ?case
  proof (cases "xo + width i + buffer > maxW")
    case True
    with Cons.prems(1) have
      "buildMapping_loop icons buffer maxW (buildRowMapping m cols yo, [(i, 0)], 0 + width i + buffer, rh + yo + buffer, max 0 (height i)) = (m', cols', xo', yo', rh')"
      by simp
    from Cons.IH [OF this rest] ki
    have "map_of (own m') k = map_of (own (buildRowMapping m cols yo)) k
        \<and> k \<notin> icon_id_key ` fst ` set cols'"
      by simp
    with buildRowMapping_other [OF Cons.prems(3)] show ?thesis by simp
  next
    case False
    with Cons.prems(1) have
      "buildMapping_loop icons buffer maxW (m, cols @ [(i, xo)], xo + width i + buffer, yo, max rh (height i)) = (m', cols', xo', yo', rh')"
      by simp
    from Cons.IH [OF this rest] ki Cons.prems(3) show ?thesis by simp
  qed
qed

lemma buildMapping_other:
  assumes "k \<notin> icon_id_key ` set icons"
  shows "map_of (own (mapping (buildMapping icons buffer m0 xo0 yo0 maxW))) k
     = map_of (own (case_option empty_obj (\<lambda>m. m) m0)) k"
proof -
  obtain m cols xo yo rh where
    loop: "buildMapping_loop icons buffer maxW
             (case_option empty_obj (\<lambda>m. m) m0, [], case_option 0 (\<lambda>v. v) xo0,
              case_option 0 (\<lambda>v. v) yo0, 0) = (m, cols, xo, yo, rh)"
    by (metis prod_cases5)
  from buildMapping_loop_other [OF loop assms]
  have m: "map_of (own m) k = map_of (own (case_option empty_obj (\<lambda>m. m) m0)) k"
    and cols: "k \<notin> icon_id_key ` fst ` set cols"
    by simp_all
  from m buildRowMapping_other [OF cols] show ?thesis
    by (simp add: buildMapping_def loop)
qed

lemma getDiffIcons_loop_values:
  "getDiffIcons_loop d g c icons = Inr r \<Longrightarrow>
   snd ` set (own r) \<subseteq> snd ` set (own icons) \<union> {i. \<exists>p\<in>set d. g p = IObj i}"
proof (induction d arbitrary: icons)
  case Nil
  then show ?case by auto
next
  case (Cons p d)
  from Cons.prems obtain i where i: "g p = IObj i"
    by (cases "g p") (auto simp: Let_def split: if_splits)
  from Cons.prems i have
    "getDiffIcons_loop d g c (obj_set (prop_key (getIconId (IObj i))) i icons) = Inr r
     \<or> getDiffIcons_loop d g c icons = Inr r"
    by (auto simp: Let_def split: if_splits option.splits)
  then show ?case
  proof
    assume "getDiffIcons_loop d g c (obj_set (prop_key (getIconId (IObj i))) i icons) = Inr r"
    from Cons.IH [OF this] values_obj_set [of "prop_key (getIconId (IObj i))" i icons] i
    show ?thesis by auto
  next
    assume "getDiffIcons_loop d g c icons = Inr r"
    from Cons.IH [OF this] show ?thesis by auto
  qed
qed

lemma getDiffIcons_keys:
  assumes "getDiffIcons data getIcon c = Inr (Some ob)"
  shows "icon_id_key ` set (Object_values ob) \<subseteq> batch_keys data getIcon"
proof -
  from assms obtain d g where dg: "data = Some d" "getIcon = Some g"
    and loop: "getDiffIcons_loop d g c empty_obj = Inr ob"
    by (auto simp: getDiffIcons_def split: option.splits sum.splits)
  from getDiffIcons_loop_values [OF loop]
  have sub: "snd ` set (own ob) \<subseteq> {i. \<exists>p\<in>set d. g p = IObj i}"
    by (simp add: empty_obj_def)
  show ?thesis
  proof
    fix k assume "k \<in> icon_id_key ` set (Object_values ob)"
    then obtain i where i: "i \<in> snd ` set (own ob)" and k: "k = icon_id_key i"
      by (auto simp: set_Object_values)
    from i sub obtain p where p: "p \<in> set d" "g p = IObj i" by blast
    then have "k = prop_key (getIconId (g p))" by (simp add: k icon_id_key_def)
    with p(1) show "k \<in> batch_keys data getIcon"
      by (auto simp: batch_keys_def dg)
  qed
qed

text \<open>Claim C5, as stated: no later update is to give a committed id another position.
  An update whose batch has the icon \<open>a\<close> with another url packs it again at the cursor:
  its entry moves from \<open>(0, 0)\<close> to \<open>(44, 0)\<close>.\<close>

theorem changed_url_moves_icon:
  "map_option (\<lambda>s. map_of (own (mapping_c s)) ''a'') (map_of (entries (cached world_a)) 0)
     = Some (Some (place icon_a 0 0))
   \<and> map_option (\<lambda>s. map_of (own (mapping_c s)) ''a'')
       (map_of (entries (cached (snd (updateAutoPacking auto_manager
          (Some [IObj (icon_a\<lparr>url := Some ''url9''\<rparr>)]) DEFAULT_BUFFER MAX_CANVAS_WIDTH
          world_a)))) 0)
     = Some (Some (place (icon_a\<lparr>url := Some ''url9''\<rparr>) 44 0))"
  by code_simp

text \<open>Claim C5, amended. An update of a context with a cached state leaves the context
  cached, and leaves unchanged the mapping entry of every id that is not the id of an icon
  extracted from the batch.\<close>

theorem update_keeps_absent_ids:
  assumes "map_of (entries (cached w)) (gl m) = Some s"
    and "k \<notin> batch_keys data (getIcon_m m)"
  shows "\<exists>s'. map_of (entries (cached (snd (updateAutoPacking m data buffer maxCanvasWidth w))))
           (gl m) = Some s'
     \<and> map_of (own (mapping_c s')) k = map_of (own (mapping_c s)) k"
proof (cases "\<exists>ob. getDiffIcons data (getIcon_m m) (map_option mapping_c
      (map_of (entries (cached w)) (gl m))) = Inr (Some ob) \<and> own ob \<noteq> []")
  case False
  then have "snd (updateAutoPacking m data buffer maxCanvasWidth w)
     = w\<lparr>cached := snd (lru_get (gl m) (cached w))\<rparr>"
    by (intro updateAutoPacking_no_icons) blast
  with assms(1) show ?thesis by (simp add: lru_get_map_of)
next
  case True
  then obtain ob where diff: "getDiffIcons data (getIcon_m m) (map_option mapping_c
      (map_of (entries (cached w)) (gl m))) = Inr (Some ob)" and ob: "own ob \<noteq> []"
    by blast
  from getDiffIcons_keys [OF diff] assms(2)
  have k: "k \<notin> icon_id_key ` set (Object_values ob)" by blast
  have "map_of (own (mapping (buildMapping (Object_values ob) buffer (Some (mapping_c s))
      (Some (xOffset_c s)) (Some (yOffset_c s)) maxCanvasWidth))) k = map_of (own (mapping_c s)) k"
    using buildMapping_other [OF k] by simp
  with updateAutoPacking_sets [OF refl diff ob refl, of buffer maxCanvasWidth] assms(1)
  show ?thesis by (simp add: lru_set_lookup)
qed

theorem update_keeps_absent_ids_witness:
  "map_of (entries (cached world_a)) (gl auto_manager) \<noteq> None
   \<and> ''a'' \<notin> batch_keys (Some [IObj icon_b]) (getIcon_m auto_manager)
   \<and> (\<exists>s'. map_of (entries (cached (snd (updateAutoPacking auto_manager (Some [IObj icon_b])
              4 1024 world_a)))) (gl auto_manager) = Some s'
         \<and> map_of (own (mapping_c s')) ''a'' = Some (place icon_a 0 0))"
proof -
  have s: "map_of (entries (cached world_a)) (gl auto_manager) =
       Some \<lparr>mapping_c = \<lparr>own = [(''a'', place icon_a 0 0)], proto = None\<rparr>,
             texture_c = Some \<lparr>width_t = 1024, height_t = Num 32\<rparr>,
             xOffset_c = 44, yOffset_c = 0, canvasWidth_c = None, canvasHeight_c = Num 32\<rparr>"
    by (simp add: world_a_eval auto_manager_def)
  have k: "''a'' \<notin> batch_keys (Some [IObj icon_b]) (getIcon_m auto_manager)"
    by (simp add: batch_keys_def auto_manager_def icon_b_def)
  from update_keeps_absent_ids [OF s k, of 4 1024] s k show ?thesis by simp
qed

subsection \<open>Constructing a manager\<close>

text \<open>Claim C9, as stated: constructing a second manager for a context with a non-empty
  cached state is to leave that state unchanged. The constructor replaces it by the empty
  state.\<close>

theorem constructor_resets_cached_state:
  "map_of (entries (cached world_a)) 0 =
     Some \<lparr>mapping_c = \<lparr>own = [(''a'', place icon_a 0 0)], proto = None\<rparr>,
           texture_c = Some \<lparr>width_t = 1024, height_t = Num 32\<rparr>,
           xOffset_c = 44, yOffset_c = 0, canvasWidth_c = None, canvasHeight_c = Num 32\<rparr>
   \<and> map_of (entries (cached (snd (constructor 0 world_a
          :: (nat, icon_ref, unit) IconManager \<times> nat world)))) 0 =
     Some \<lparr>mapping_c = \<lparr>own = [], proto = None\<rparr>, texture_c = None,
           xOffset_c = 0, yOffset_c = 0,
           canvasWidth_c = Some 0, canvasHeight_c = Num 0\<rparr>"
  by (simp add: world_a_eval constructor_def lru_set_def empty_state_def empty_obj_def)

text \<open>Claim C9, amended. The constructor caches the empty state for its context, whatever
  was cached for it. The state of another context is left as it was, unless the
  constructor's context was not cached, the cache was at its capacity and the other
  context was the least recently touched one.\<close>

theorem constructor_sets_empty_state:
  "map_of (entries (cached (snd (constructor g w)))) g = Some empty_state
   \<and> (\<forall>g'. g' \<noteq> g \<longrightarrow>
        map_of (entries (cached (snd (constructor g w)))) g' = map_of (entries (cached w)) g'
        \<or> (map_of (entries (cached w)) g = None \<and> limit (cached w) \<le> length (entries (cached w))
           \<and> entries (cached w) \<noteq> [] \<and> g' = fst (hd (entries (cached w)))))"
  using lru_set_other [of _ g empty_state "cached w"]
  by (simp add: constructor_def lru_set_lookup)

theorem constructor_sets_empty_state_witness:
  "(0::nat) \<noteq> 1
   \<and> map_of (entries (cached (snd (constructor 0 world_a
          :: (nat, icon_ref, unit) IconManager \<times> nat world)))) 0 = Some empty_state
   \<and> map_of (entries (cached (snd (constructor 1 world_a
          :: (nat, icon_ref, unit) IconManager \<times> nat world)))) 0
       = map_of (entries (cached world_a)) 0"
proof -
  have a: "map_of (entries (cached (snd (constructor 0 world_a
          :: (nat, icon_ref, unit) IconManager \<times> nat world)))) 0 = Some empty_state"
    by (rule conjunct1 [OF constructor_sets_empty_state])
  have "\<forall>g'. g' \<noteq> 1 \<longrightarrow>
        map_of (entries (cached (snd (constructor 1 world_a
          :: (nat, icon_ref, unit) IconManager \<times> nat world)))) g'
          = map_of (entries (cached world_a)) g'
        \<or> (map_of (entries (cached world_a)) 1 = None
           \<and> limit (cached world_a) \<le> length (entries (cached world_a))
           \<and> entries (cached world_a) \<noteq> [] \<and> g' = fst (hd (entries (cached world_a))))"
    by (rule conjunct2 [OF constructor_sets_empty_state])
  moreover have "\<not> limit (cached world_a) \<le> length (entries (cached world_a))"
    by (simp add: world_a_eval)
  ultimately have b: "map_of (entries (cached (snd (constructor 1 world_a
          :: (nat, icon_ref, unit) IconManager \<times> nat world)))) 0
       = map_of (entries (cached world_a)) 0"
    by (metis zero_neq_one)
  from a b show ?thesis by simp
qed

end
